theory Spec2Isabelle
  imports Main "HOL-Library.Signed_Division"
begin

section \<open>The snake game of \<open>snakegame/main.c\<close>\<close>

text \<open>
  The program keeps a snake as two parallel arrays of coordinates and a length, moves it
  one cell per iteration of the game loop, wraps the head at the screen border, stops on
  self-collision and lets the snake grow by one cell every \<open>EXTEND_INTERVAL\<close> seconds.

  Conventions of the embedding.
  \<^item> A C \<open>int\<close> (and \<open>time_t\<close>) is an \<open>int\<close>. The program only adds or subtracts small
    constants; signed overflow is undefined in C, so the model describes the executions
    that stay inside the range of \<open>int\<close>.
  \<^item> A heap block of \<open>int\<close> is an \<open>int list\<close> whose length is the number of cells
    allocated; \<open>malloc\<close> and \<open>realloc\<close> succeed. A write \<open>a[i] = v\<close> is
    \<open>a[nat i := v]\<close>, a read \<open>a[i]\<close> is \<open>a ! nat i\<close>; the predicate \<open>snake_ok\<close> below
    says that every index the code uses is inside the block.
  \<^item> A function that receives \<open>Snake *\<close> takes the snake and returns the snake it leaves
    behind (next to its result, when it has one).
  \<^item> What \<open>getch()\<close> and \<open>time(NULL)\<close> return is an input of the model. Drawing
    (\<open>mvprintw\<close>, \<open>draw_border\<close>, \<open>refresh\<close>) and sleeping do not touch the game state
    and are left out.
\<close>

subsection \<open>Data\<close>

datatype Direction = DIR_UP | DIR_DOWN | DIR_LEFT | DIR_RIGHT

definition INITIAL_SNAKE_LENGTH :: int where
  "INITIAL_SNAKE_LENGTH = 5"

definition EXTEND_INTERVAL :: int where
  "EXTEND_INTERVAL = 5"

text \<open>The struct \<open>Snake\<close>: fields \<open>x\<close>, \<open>y\<close> and \<open>length\<close>.\<close>

record Snake =
  x_snake :: "int list"
  y_snake :: "int list"
  length_snake :: int

text \<open>
  The key codes \<open>KEY_UP\<close>, \<open>KEY_DOWN\<close>, \<open>KEY_LEFT\<close> and \<open>KEY_RIGHT\<close> are macros of
  \<open>ncurses.h\<close>, which is not part of the repository: they are parameters of the model.
\<close>

record keycodes =
  KEY_UP :: int
  KEY_DOWN :: int
  KEY_LEFT :: int
  KEY_RIGHT :: int

subsection \<open>\<open>get_new_direction\<close>\<close>

text \<open>
  The function calls \<open>getch()\<close> itself; here the key table and the value that \<open>getch()\<close>
  returned are its first two arguments. The \<open>switch\<close> is the chain of tests below: the
  \<open>case\<close> labels of a \<open>switch\<close> are distinct, so at most one of them applies.
\<close>

definition get_new_direction :: "keycodes \<Rightarrow> int \<Rightarrow> Direction \<Rightarrow> Direction" where
  "get_new_direction k ch current_direction =
     (if ch = KEY_UP k then DIR_UP
      else if ch = KEY_DOWN k then DIR_DOWN
      else if ch = KEY_LEFT k then DIR_LEFT
      else if ch = KEY_RIGHT k then DIR_RIGHT
      else current_direction)"

subsection \<open>\<open>update_snake\<close>\<close>

text \<open>The loop \<open>for (int i = snake->length - 1; i > 0; i--)\<close>, entered at \<open>i\<close>.\<close>

function shift_loop :: "Snake \<Rightarrow> int \<Rightarrow> Snake" where
  "shift_loop s i =
     (if 0 < i then
        shift_loop
          (s\<lparr>x_snake := (x_snake s)[nat i := x_snake s ! nat (i - 1)],
             y_snake := (y_snake s)[nat i := y_snake s ! nat (i - 1)]\<rparr>)
          (i - 1)
      else s)"
  by pat_completeness auto
termination
  by (relation "measure (\<lambda>(s, i). nat i)") auto

declare shift_loop.simps [simp del]

definition update_snake :: "Snake \<Rightarrow> Direction \<Rightarrow> Snake" where
  "update_snake snake direction =
     (let s = shift_loop snake (length_snake snake - 1) in
      case direction of
        DIR_UP \<Rightarrow> s\<lparr>y_snake := (y_snake s)[0 := y_snake s ! 0 - 1]\<rparr>
      | DIR_DOWN \<Rightarrow> s\<lparr>y_snake := (y_snake s)[0 := y_snake s ! 0 + 1]\<rparr>
      | DIR_LEFT \<Rightarrow> s\<lparr>x_snake := (x_snake s)[0 := x_snake s ! 0 - 1]\<rparr>
      | DIR_RIGHT \<Rightarrow> s\<lparr>x_snake := (x_snake s)[0 := x_snake s ! 0 + 1]\<rparr>)"

subsection \<open>\<open>check_collision\<close>\<close>

text \<open>The loop \<open>for (int i = 1; i < snake->length; i++)\<close>, entered at \<open>i\<close>.\<close>

function collision_loop :: "Snake \<Rightarrow> int \<Rightarrow> bool \<times> Snake" where
  "collision_loop s i =
     (if i < length_snake s then
        (if x_snake s ! 0 = x_snake s ! nat i \<and> y_snake s ! 0 = y_snake s ! nat i
         then (True, s)
         else collision_loop s (i + 1))
      else (False, s))"
  by pat_completeness auto
termination
  by (relation "measure (\<lambda>(s, i). nat (length_snake s - i))") auto

declare collision_loop.simps [simp del]

definition check_collision :: "Snake \<Rightarrow> bool \<times> Snake" where
  "check_collision snake = collision_loop snake 1"

subsection \<open>\<open>extend_snake\<close>\<close>

text \<open>
  \<open>realloc(p, n * sizeof(int))\<close> on a block of \<open>int\<close>: the first cells keep their values;
  the cells beyond the old block are indeterminate in C and 0 here (\<open>extend_snake\<close>
  writes the one new cell before anything reads it). \<open>malloc\<close> likewise.
\<close>

definition realloc_int :: "int list \<Rightarrow> int \<Rightarrow> int list" where
  "realloc_int p n = take (nat n) p @ replicate (nat n - length p) 0"

definition malloc_int :: "int \<Rightarrow> int list" where
  "malloc_int n = replicate (nat n) 0"

definition extend_snake :: "Snake \<Rightarrow> Snake" where
  "extend_snake snake =
     (let s1 = snake\<lparr>x_snake := realloc_int (x_snake snake) (length_snake snake + 1)\<rparr>;
          s2 = s1\<lparr>y_snake := realloc_int (y_snake s1) (length_snake s1 + 1)\<rparr>;
          s3 = s2\<lparr>x_snake := (x_snake s2)[nat (length_snake s2) :=
                                  x_snake s2 ! nat (length_snake s2 - 1)]\<rparr>;
          s4 = s3\<lparr>y_snake := (y_snake s3)[nat (length_snake s3) :=
                                  y_snake s3 ! nat (length_snake s3 - 1)]\<rparr>
      in s4\<lparr>length_snake := length_snake s4 + 1\<rparr>)"

subsection \<open>Well-formed snakes\<close>

text \<open>
  The snake has a head, and both arrays have a cell for each of its \<open>length\<close> segments.
  \<open>main\<close> allocates exactly \<open>length\<close> cells, and \<open>extend_snake\<close> one more on each call.
\<close>

definition snake_ok :: "Snake \<Rightarrow> bool" where
  "snake_ok s =
     (1 \<le> length_snake s \<and>
      nat (length_snake s) \<le> length (x_snake s) \<and>
      nat (length_snake s) \<le> length (y_snake s))"

subsection \<open>The wraparound block of \<open>main\<close>\<close>

text \<open>
  The two \<open>if\<close>/\<open>else if\<close> statements that follow the call of \<open>update_snake\<close> in the
  game loop: first the test on \<open>snake.x[0]\<close>, then the test on \<open>snake.y[0]\<close>.
\<close>

definition wrap_head :: "int \<Rightarrow> int \<Rightarrow> Snake \<Rightarrow> Snake" where
  "wrap_head max_x max_y snake =
     (let s1 = (if x_snake snake ! 0 \<le> 0
                then snake\<lparr>x_snake := (x_snake snake)[0 := max_x - 2]\<rparr>
                else if max_x - 1 \<le> x_snake snake ! 0
                then snake\<lparr>x_snake := (x_snake snake)[0 := 1]\<rparr>
                else snake)
      in if y_snake s1 ! 0 \<le> 0
         then s1\<lparr>y_snake := (y_snake s1)[0 := max_y - 2]\<rparr>
         else if max_y - 1 \<le> y_snake s1 ! 0
         then s1\<lparr>y_snake := (y_snake s1)[0 := 1]\<rparr>
         else s1)"

subsection \<open>The initial snake of \<open>main\<close>\<close>

text \<open>
  The loop \<open>for (int i = 0; i < snake.length; i++)\<close> that fills the arrays, entered at
  \<open>i\<close>. The division of C truncates towards zero: \<open>sdiv\<close>.
\<close>

function init_loop :: "Snake \<Rightarrow> int \<Rightarrow> int \<Rightarrow> int \<Rightarrow> Snake" where
  "init_loop s max_x max_y i =
     (if i < length_snake s then
        init_loop
          (s\<lparr>x_snake := (x_snake s)[nat i := (max_x sdiv 2) + i],
             y_snake := (y_snake s)[nat i := max_y sdiv 2]\<rparr>)
          max_x max_y (i + 1)
      else s)"
  by pat_completeness auto
termination
  by (relation "measure (\<lambda>(s, max_x, max_y, i). nat (length_snake s - i))") auto

declare init_loop.simps [simp del]

definition init_snake :: "int \<Rightarrow> int \<Rightarrow> Snake" where
  "init_snake max_x max_y =
     init_loop
       \<lparr>x_snake = malloc_int INITIAL_SNAKE_LENGTH,
        y_snake = malloc_int INITIAL_SNAKE_LENGTH,
        length_snake = INITIAL_SNAKE_LENGTH\<rparr>
       max_x max_y 0"

subsection \<open>The game loop of \<open>main\<close>\<close>

text \<open>The local variables of \<open>main\<close> that the loop reads and writes.\<close>

record game =
  snake :: Snake
  current_direction :: Direction
  game_over :: bool
  last_extend_time :: int
  max_x :: int
  max_y :: int

text \<open>
  What one iteration reads from outside: the \<open>getch()\<close> at the top of the loop, the
  \<open>time(NULL)\<close> of the growth test, and the \<open>getch()\<close> inside \<open>get_new_direction\<close>.
\<close>

record input =
  in_ch :: int
  in_time :: int
  in_key :: int

text \<open>An iteration ends with \<open>break\<close> or goes on to the loop test.\<close>

datatype step = Break game | Next game

fun state_of :: "step \<Rightarrow> game" where
  "state_of (Break g) = g"
| "state_of (Next g) = g"

text \<open>The state at the start of the loop; \<open>t0\<close> is the value of \<open>time(NULL)\<close> there.\<close>

definition init_game :: "int \<Rightarrow> int \<Rightarrow> int \<Rightarrow> game" where
  "init_game mx my t0 =
     \<lparr>snake = init_snake mx my,
      current_direction = DIR_LEFT,
      game_over = False,
      last_extend_time = t0,
      max_x = mx,
      max_y = my\<rparr>"

text \<open>The loop body. 113 is the character \<open>'q'\<close>.\<close>

definition tick :: "keycodes \<Rightarrow> input \<Rightarrow> game \<Rightarrow> step" where
  "tick k inp g =
     (if in_ch inp = 113 then Break g
      else
        let g1 = g\<lparr>snake := update_snake (snake g) (current_direction g)\<rparr>;
            g2 = g1\<lparr>snake := wrap_head (max_x g1) (max_y g1) (snake g1)\<rparr>;
            (hit, s) = check_collision (snake g2);
            g3 = g2\<lparr>snake := s\<rparr>
        in if hit then Break (g3\<lparr>game_over := True\<rparr>)
           else
             let g4 = (if EXTEND_INTERVAL \<le> in_time inp - last_extend_time g3
                       then g3\<lparr>snake := extend_snake (snake g3),
                               last_extend_time := in_time inp\<rparr>
                       else g3)
             in Next (g4\<lparr>current_direction :=
                           get_new_direction k (in_key inp) (current_direction g4)\<rparr>))"

text \<open>
  \<open>while (!game_over)\<close> on the inputs of finitely many iterations: the state when the
  inputs are used up, or when the loop has ended before.
\<close>

fun game_loop :: "keycodes \<Rightarrow> game \<Rightarrow> input list \<Rightarrow> game" where
  "game_loop k g [] = g"
| "game_loop k g (inp # inps) =
     (if game_over g then g
      else case tick k inp g of
             Break g' \<Rightarrow> g'
           | Next g' \<Rightarrow> game_loop k g' inps)"

subsection \<open>Notions used in the statements\<close>

text \<open>The direction opposite to a direction, and the unit step of a direction.\<close>

fun opposite :: "Direction \<Rightarrow> Direction" where
  "opposite DIR_UP = DIR_DOWN"
| "opposite DIR_DOWN = DIR_UP"
| "opposite DIR_LEFT = DIR_RIGHT"
| "opposite DIR_RIGHT = DIR_LEFT"

fun step_x :: "Direction \<Rightarrow> int" where
  "step_x DIR_LEFT = - 1"
| "step_x DIR_RIGHT = 1"
| "step_x d = 0"

fun step_y :: "Direction \<Rightarrow> int" where
  "step_y DIR_UP = - 1"
| "step_y DIR_DOWN = 1"
| "step_y d = 0"

text \<open>
  A snake that lies in a straight line behind its head while travelling in direction
  \<open>d\<close>: segment \<open>i\<close> is \<open>i\<close> cells from the head, against the direction of travel.
\<close>

definition straight_line :: "Snake \<Rightarrow> Direction \<Rightarrow> bool" where
  "straight_line s d =
     (\<forall>i \<in> {0 ..< nat (length_snake s)}.
        x_snake s ! i = x_snake s ! 0 - int i * step_x d \<and>
        y_snake s ! i = y_snake s ! 0 - int i * step_y d)"

text \<open>The coordinates of the segments, head first.\<close>

definition segments :: "Snake \<Rightarrow> (int \<times> int) list" where
  "segments s =
     zip (take (nat (length_snake s)) (x_snake s)) (take (nat (length_snake s)) (y_snake s))"

text \<open>
  A body that is centred in a screen of \<open>w\<close> columns (numbered from 0) leaves as many
  free columns on its left as on its right, up to the one column of rounding.
\<close>

definition free_left :: "Snake \<Rightarrow> int" where
  "free_left s = Min (set (map fst (segments s)))"

definition free_right :: "int \<Rightarrow> Snake \<Rightarrow> int" where
  "free_right w s = w - 1 - Max (set (map fst (segments s)))"

definition centred_in_width :: "int \<Rightarrow> Snake \<Rightarrow> bool" where
  "centred_in_width w s = (\<bar>free_left s - free_right w s\<bar> \<le> 1)"

subsection \<open>Facts about well-formed snakes\<close>

lemma snake_ok_index:
  "snake_ok s \<Longrightarrow> int j < length_snake s \<Longrightarrow> j < length (x_snake s) \<and> j < length (y_snake s)"
  by (auto simp: snake_ok_def)

lemma snake_ok_last:
  "snake_ok s \<Longrightarrow> nat (length_snake s - 1) < length (x_snake s) \<and>
                 nat (length_snake s - 1) < length (y_snake s)"
  by (auto simp: snake_ok_def)

lemma snake_ok_head:
  "snake_ok s \<Longrightarrow> 0 < length_snake s \<and> x_snake s \<noteq> [] \<and> y_snake s \<noteq> []"
  by (auto simp: snake_ok_def)

subsection \<open>Facts about \<open>update_snake\<close>\<close>

lemma shift_loop_length: "length_snake (shift_loop s i) = length_snake s"
  by (induction s i rule: shift_loop.induct) (subst shift_loop.simps, simp)

lemma shift_loop_size_x: "length (x_snake (shift_loop s i)) = length (x_snake s)"
  by (induction s i rule: shift_loop.induct) (subst shift_loop.simps, simp)

lemma shift_loop_size_y: "length (y_snake (shift_loop s i)) = length (y_snake s)"
  by (induction s i rule: shift_loop.induct) (subst shift_loop.simps, simp)

lemma shift_loop_x_nth:
  "nat i < length (x_snake s) \<Longrightarrow> j < length (x_snake s) \<Longrightarrow>
   x_snake (shift_loop s i) ! j =
     (if 1 \<le> j \<and> int j \<le> i then x_snake s ! (j - 1) else x_snake s ! j)"
proof (induction s i rule: shift_loop.induct)
  case (1 s i)
  show ?case
  proof (cases "0 < i")
    case False
    then show ?thesis by (subst shift_loop.simps) simp
  next
    case True
    let ?s' = "s\<lparr>x_snake := (x_snake s)[nat i := x_snake s ! nat (i - 1)],
                 y_snake := (y_snake s)[nat i := y_snake s ! nat (i - 1)]\<rparr>"
    have step: "shift_loop s i = shift_loop ?s' (i - 1)"
      using True by (subst shift_loop.simps) simp
    have ih: "x_snake (shift_loop ?s' (i - 1)) ! j =
        (if 1 \<le> j \<and> int j \<le> i - 1 then x_snake ?s' ! (j - 1) else x_snake ?s' ! j)"
      using "1.IH" [OF True] "1.prems" by simp
    show ?thesis
      using True "1.prems" unfolding step ih
      by (auto simp: nth_list_update nat_diff_distrib)
  qed
qed

lemma shift_loop_y_nth:
  "nat i < length (y_snake s) \<Longrightarrow> j < length (y_snake s) \<Longrightarrow>
   y_snake (shift_loop s i) ! j =
     (if 1 \<le> j \<and> int j \<le> i then y_snake s ! (j - 1) else y_snake s ! j)"
proof (induction s i rule: shift_loop.induct)
  case (1 s i)
  show ?case
  proof (cases "0 < i")
    case False
    then show ?thesis by (subst shift_loop.simps) simp
  next
    case True
    let ?s' = "s\<lparr>x_snake := (x_snake s)[nat i := x_snake s ! nat (i - 1)],
                 y_snake := (y_snake s)[nat i := y_snake s ! nat (i - 1)]\<rparr>"
    have step: "shift_loop s i = shift_loop ?s' (i - 1)"
      using True by (subst shift_loop.simps) simp
    have ih: "y_snake (shift_loop ?s' (i - 1)) ! j =
        (if 1 \<le> j \<and> int j \<le> i - 1 then y_snake ?s' ! (j - 1) else y_snake ?s' ! j)"
      using "1.IH" [OF True] "1.prems" by simp
    show ?thesis
      using True "1.prems" unfolding step ih
      by (auto simp: nth_list_update nat_diff_distrib)
  qed
qed

lemma update_snake_length: "length_snake (update_snake s d) = length_snake s"
  by (cases d) (simp_all add: update_snake_def Let_def shift_loop_length)

lemma update_snake_size_x: "length (x_snake (update_snake s d)) = length (x_snake s)"
  by (cases d) (simp_all add: update_snake_def Let_def shift_loop_size_x)

lemma update_snake_size_y: "length (y_snake (update_snake s d)) = length (y_snake s)"
  by (cases d) (simp_all add: update_snake_def Let_def shift_loop_size_y)

lemma update_snake_ok: "snake_ok s \<Longrightarrow> snake_ok (update_snake s d)"
  by (simp add: snake_ok_def update_snake_length update_snake_size_x update_snake_size_y)

lemma shifted_x:
  assumes "snake_ok s" and "int j < length_snake s"
  shows "x_snake (shift_loop s (length_snake s - 1)) ! j =
     (if 1 \<le> j then x_snake s ! (j - 1) else x_snake s ! j)"
proof -
  have a: "nat (length_snake s - 1) < length (x_snake s)"
    using assms(1) by (simp add: snake_ok_last)
  have b: "j < length (x_snake s)"
    using assms by (simp add: snake_ok_index)
  from shift_loop_x_nth [OF a b] assms(2) show ?thesis
    by auto
qed

lemma shifted_y:
  assumes "snake_ok s" and "int j < length_snake s"
  shows "y_snake (shift_loop s (length_snake s - 1)) ! j =
     (if 1 \<le> j then y_snake s ! (j - 1) else y_snake s ! j)"
proof -
  have a: "nat (length_snake s - 1) < length (y_snake s)"
    using assms(1) by (simp add: snake_ok_last)
  have b: "j < length (y_snake s)"
    using assms by (simp add: snake_ok_index)
  from shift_loop_y_nth [OF a b] assms(2) show ?thesis
    by auto
qed

lemma update_snake_x_body:
  assumes "snake_ok s" and "1 \<le> j" and "int j < length_snake s"
  shows "x_snake (update_snake s d) ! j = x_snake s ! (j - 1)"
  using shifted_x [OF assms(1,3)] assms(2)
  by (cases d) (simp_all add: update_snake_def Let_def)

lemma update_snake_y_body:
  assumes "snake_ok s" and "1 \<le> j" and "int j < length_snake s"
  shows "y_snake (update_snake s d) ! j = y_snake s ! (j - 1)"
  using shifted_y [OF assms(1,3)] assms(2)
  by (cases d) (simp_all add: update_snake_def Let_def)

lemma update_snake_x_head:
  assumes "snake_ok s"
  shows "x_snake (update_snake s d) ! 0 =
     (case d of DIR_LEFT \<Rightarrow> x_snake s ! 0 - 1 | DIR_RIGHT \<Rightarrow> x_snake s ! 0 + 1
              | _ \<Rightarrow> x_snake s ! 0)"
proof -
  have pos: "x_snake (shift_loop s (length_snake s - 1)) \<noteq> []"
    using snake_ok_head [OF assms] shift_loop_size_x [of s "length_snake s - 1"]
    by (metis length_0_conv)
  have h0: "x_snake (shift_loop s (length_snake s - 1)) ! 0 = x_snake s ! 0"
    using shifted_x [OF assms, of 0] snake_ok_head [OF assms] by simp
  show ?thesis
    using pos h0 by (cases d) (simp_all add: update_snake_def Let_def)
qed

lemma update_snake_y_head:
  assumes "snake_ok s"
  shows "y_snake (update_snake s d) ! 0 =
     (case d of DIR_UP \<Rightarrow> y_snake s ! 0 - 1 | DIR_DOWN \<Rightarrow> y_snake s ! 0 + 1
              | _ \<Rightarrow> y_snake s ! 0)"
proof -
  have pos: "y_snake (shift_loop s (length_snake s - 1)) \<noteq> []"
    using snake_ok_head [OF assms] shift_loop_size_y [of s "length_snake s - 1"]
    by (metis length_0_conv)
  have h0: "y_snake (shift_loop s (length_snake s - 1)) ! 0 = y_snake s ! 0"
    using shifted_y [OF assms, of 0] snake_ok_head [OF assms] by simp
  show ?thesis
    using pos h0 by (cases d) (simp_all add: update_snake_def Let_def)
qed

text \<open>
  C1. Postcondition of \<open>update_snake\<close>, for every snake with \<open>length \<ge> 1\<close> (whose arrays
  hold its segments) and every direction: each segment \<open>i\<close> from 1 to \<open>length - 1\<close> holds what segment \<open>i - 1\<close> held before the
  call, and the head is the old head moved by one cell: \<open>y - 1\<close> for up, \<open>y + 1\<close> for
  down, \<open>x - 1\<close> for left, \<open>x + 1\<close> for right, the other coordinate as it was.
\<close>

theorem update_snake_post:
  assumes "snake_ok s"
  shows "(\<forall>i. 1 \<le> i \<and> i < length_snake s \<longrightarrow>
            x_snake (update_snake s d) ! nat i = x_snake s ! nat (i - 1) \<and>
            y_snake (update_snake s d) ! nat i = y_snake s ! nat (i - 1))
       \<and> (x_snake (update_snake s d) ! 0, y_snake (update_snake s d) ! 0) =
           (case d of
              DIR_UP \<Rightarrow> (x_snake s ! 0, y_snake s ! 0 - 1)
            | DIR_DOWN \<Rightarrow> (x_snake s ! 0, y_snake s ! 0 + 1)
            | DIR_LEFT \<Rightarrow> (x_snake s ! 0 - 1, y_snake s ! 0)
            | DIR_RIGHT \<Rightarrow> (x_snake s ! 0 + 1, y_snake s ! 0))"
proof (intro conjI)
  have "x_snake (update_snake s d) ! nat i = x_snake s ! nat (i - 1) \<and>
        y_snake (update_snake s d) ! nat i = y_snake s ! nat (i - 1)"
    if i: "1 \<le> i \<and> i < length_snake s" for i
  proof -
    from i have "int (nat i) < length_snake s" and "1 \<le> nat i" and "nat i - 1 = nat (i - 1)"
      by auto
    then show ?thesis
      using update_snake_x_body [OF assms, of "nat i" d] update_snake_y_body [OF assms, of "nat i" d]
      by simp
  qed
  then show "\<forall>i. 1 \<le> i \<and> i < length_snake s \<longrightarrow>
            x_snake (update_snake s d) ! nat i = x_snake s ! nat (i - 1) \<and>
            y_snake (update_snake s d) ! nat i = y_snake s ! nat (i - 1)"
    by blast
next
  from update_snake_x_head [OF assms, of d] update_snake_y_head [OF assms, of d]
  show "(x_snake (update_snake s d) ! 0, y_snake (update_snake s d) ! 0) =
           (case d of
              DIR_UP \<Rightarrow> (x_snake s ! 0, y_snake s ! 0 - 1)
            | DIR_DOWN \<Rightarrow> (x_snake s ! 0, y_snake s ! 0 + 1)
            | DIR_LEFT \<Rightarrow> (x_snake s ! 0 - 1, y_snake s ! 0)
            | DIR_RIGHT \<Rightarrow> (x_snake s ! 0 + 1, y_snake s ! 0))"
    by (cases d) simp_all
qed

theorem update_snake_post_witness:
  "snake_ok \<lparr>x_snake = [4, 5, 6], y_snake = [2, 2, 2], length_snake = 3\<rparr>
   \<and> x_snake (update_snake \<lparr>x_snake = [4, 5, 6], y_snake = [2, 2, 2], length_snake = 3\<rparr> DIR_UP) ! nat 2 = 5
   \<and> y_snake (update_snake \<lparr>x_snake = [4, 5, 6], y_snake = [2, 2, 2], length_snake = 3\<rparr> DIR_UP) ! nat 2 = 2
   \<and> (x_snake (update_snake \<lparr>x_snake = [4, 5, 6], y_snake = [2, 2, 2], length_snake = 3\<rparr> DIR_UP) ! 0,
       y_snake (update_snake \<lparr>x_snake = [4, 5, 6], y_snake = [2, 2, 2], length_snake = 3\<rparr> DIR_UP) ! 0)
      = (4, 1)"
proof -
  let ?s = "\<lparr>x_snake = [4, 5, 6], y_snake = [2, 2, 2], length_snake = 3\<rparr>"
  have ok: "snake_ok ?s"
    by (simp add: snake_ok_def)
  note post = update_snake_post [OF ok, of DIR_UP]
  from post have "1 \<le> (2::int) \<and> 2 < length_snake ?s \<longrightarrow>
      x_snake (update_snake ?s DIR_UP) ! nat 2 = x_snake ?s ! nat (2 - 1) \<and>
      y_snake (update_snake ?s DIR_UP) ! nat 2 = y_snake ?s ! nat (2 - 1)"
    by blast
  then have body: "x_snake (update_snake ?s DIR_UP) ! nat 2 = 5 \<and>
      y_snake (update_snake ?s DIR_UP) ! nat 2 = 2"
    by simp
  from post have head: "(x_snake (update_snake ?s DIR_UP) ! 0, y_snake (update_snake ?s DIR_UP) ! 0) = (4, 1)"
    by simp
  from ok body head show ?thesis
    by blast
qed

subsection \<open>Facts about \<open>check_collision\<close>\<close>

lemma collision_loop_past_end:
  "length_snake s \<le> i \<Longrightarrow> collision_loop s i = (False, s)"
  by (subst collision_loop.simps) simp

lemma collision_loop_snd: "snd (collision_loop s i) = s"
  by (induction s i rule: collision_loop.induct) (subst collision_loop.simps, simp)

lemma collision_loop_fst:
  "fst (collision_loop s i) \<longleftrightarrow>
     (\<exists>j. i \<le> j \<and> j < length_snake s \<and>
          x_snake s ! 0 = x_snake s ! nat j \<and> y_snake s ! 0 = y_snake s ! nat j)"
proof (induction s i rule: collision_loop.induct)
  case (1 s i)
  let ?hit = "\<lambda>j. x_snake s ! 0 = x_snake s ! nat j \<and> y_snake s ! 0 = y_snake s ! nat j"
  show ?case
  proof (cases "i < length_snake s")
    case False
    then show ?thesis
      by (subst collision_loop.simps) auto
  next
    case inside: True
    show ?thesis
    proof (cases "?hit i")
      case True
      with inside show ?thesis
        by (subst collision_loop.simps) auto
    next
      case False
      have "collision_loop s i = collision_loop s (i + 1)"
        by (subst collision_loop.simps) (simp only: inside False if_True if_False)
      then have "fst (collision_loop s i) = fst (collision_loop s (i + 1))"
        by simp
      also have "\<dots> \<longleftrightarrow> (\<exists>j. i + 1 \<le> j \<and> j < length_snake s \<and> ?hit j)"
        using "1.IH" [OF inside] False by blast
      also have "\<dots> \<longleftrightarrow> (\<exists>j. i \<le> j \<and> j < length_snake s \<and> ?hit j)"
      proof
        assume "\<exists>j. i + 1 \<le> j \<and> j < length_snake s \<and> ?hit j"
        then obtain j where "i + 1 \<le> j" "j < length_snake s" "?hit j" by blast
        then have "i \<le> j \<and> j < length_snake s \<and> ?hit j" by simp
        then show "\<exists>j. i \<le> j \<and> j < length_snake s \<and> ?hit j" ..
      next
        assume "\<exists>j. i \<le> j \<and> j < length_snake s \<and> ?hit j"
        then obtain j where j: "i \<le> j" "j < length_snake s" "?hit j" by blast
        with False have "j \<noteq> i" by blast
        with j have "i + 1 \<le> j \<and> j < length_snake s \<and> ?hit j" by simp
        then show "\<exists>j. i + 1 \<le> j \<and> j < length_snake s \<and> ?hit j" ..
      qed
      finally show ?thesis .
    qed
  qed
qed

lemma length_segments: "snake_ok s \<Longrightarrow> length (segments s) = nat (length_snake s)"
  by (auto simp: segments_def snake_ok_def)

lemma segments_nth:
  "snake_ok s \<Longrightarrow> int j < length_snake s \<Longrightarrow> segments s ! j = (x_snake s ! j, y_snake s ! j)"
  by (auto simp: segments_def snake_ok_def)

lemma distinct_no_collision:
  assumes ok: "snake_ok s" and d: "distinct (segments s)"
  shows "\<not> fst (check_collision s)"
proof
  assume "fst (check_collision s)"
  then obtain j where j: "1 \<le> j" "j < length_snake s"
      "x_snake s ! 0 = x_snake s ! nat j" "y_snake s ! 0 = y_snake s ! nat j"
    unfolding check_collision_def collision_loop_fst by blast
  have "segments s ! 0 = segments s ! nat j"
    using segments_nth [OF ok, of 0] segments_nth [OF ok, of "nat j"] j by simp
  moreover have "0 < length (segments s)" "nat j < length (segments s)"
    using j by (simp_all add: length_segments [OF ok])
  ultimately have "0 = nat j"
    using d by (simp add: nth_eq_iff_index_eq)
  with j(1) show False by simp
qed

text \<open>
  C3. \<open>check_collision\<close> returns true exactly when the head coordinate (index 0) is the
  coordinate of a segment at an index from 1 to \<open>length - 1\<close>. The snake
  \<open>[(5,5),(6,5),(5,5)]\<close> collides; a snake whose segments are pairwise distinct does not.
\<close>

theorem check_collision_iff:
  "(fst (check_collision s) \<longleftrightarrow>
      (\<exists>i. 1 \<le> i \<and> i < length_snake s \<and>
           (x_snake s ! 0, y_snake s ! 0) = (x_snake s ! nat i, y_snake s ! nat i)))
   \<and> fst (check_collision \<lparr>x_snake = [5, 6, 5], y_snake = [5, 5, 5], length_snake = 3\<rparr>)
   \<and> (snake_ok s \<and> distinct (segments s) \<longrightarrow> \<not> fst (check_collision s))"
proof (intro conjI)
  show "fst (check_collision s) \<longleftrightarrow>
      (\<exists>i. 1 \<le> i \<and> i < length_snake s \<and>
           (x_snake s ! 0, y_snake s ! 0) = (x_snake s ! nat i, y_snake s ! nat i))"
    by (simp add: check_collision_def collision_loop_fst)
next
  let ?s = "\<lparr>x_snake = [5, 6, 5], y_snake = [5, 5, 5], length_snake = 3\<rparr>"
  have "1 \<le> (2::int) \<and> 2 < length_snake ?s \<and>
        x_snake ?s ! 0 = x_snake ?s ! nat 2 \<and> y_snake ?s ! 0 = y_snake ?s ! nat 2"
    by simp
  then show "fst (check_collision ?s)"
    unfolding check_collision_def collision_loop_fst by blast
next
  show "snake_ok s \<and> distinct (segments s) \<longrightarrow> \<not> fst (check_collision s)"
    using distinct_no_collision by blast
qed

theorem check_collision_iff_witness:
  "snake_ok \<lparr>x_snake = [5, 6, 7], y_snake = [5, 5, 5], length_snake = 3\<rparr>
   \<and> distinct (segments \<lparr>x_snake = [5, 6, 7], y_snake = [5, 5, 5], length_snake = 3\<rparr>)
   \<and> \<not> fst (check_collision \<lparr>x_snake = [5, 6, 7], y_snake = [5, 5, 5], length_snake = 3\<rparr>)"
proof -
  let ?s = "\<lparr>x_snake = [5, 6, 7], y_snake = [5, 5, 5], length_snake = 3\<rparr>"
  have ok: "snake_ok ?s"
    by (simp add: snake_ok_def)
  have d: "distinct (segments ?s)"
    by (simp add: segments_def)
  from check_collision_iff [of ?s] ok d show ?thesis
    by blast
qed

text \<open>
  C10. A snake of length 1 never collides with itself, whatever its head coordinate:
  \<open>check_collision\<close> returns false.
\<close>

theorem check_collision_single:
  "length_snake s = 1 \<Longrightarrow> fst (check_collision s) = False"
  by (simp add: check_collision_def collision_loop_past_end)

theorem check_collision_single_witness:
  "length_snake \<lparr>x_snake = [7], y_snake = [3], length_snake = 1\<rparr> = 1
   \<and> fst (check_collision \<lparr>x_snake = [7], y_snake = [3], length_snake = 1\<rparr>) = False"
  using check_collision_single [of "\<lparr>x_snake = [7], y_snake = [3], length_snake = 1\<rparr>"]
  by simp

subsection \<open>Facts about \<open>extend_snake\<close>\<close>

lemma length_realloc_int: "length (realloc_int p n) = nat n"
  by (simp add: realloc_int_def)

lemma realloc_int_grow:
  assumes "n \<le> length p"
  shows "\<exists>c. realloc_int p (int n + 1) = take n p @ [c]"
proof (cases "n = length p")
  case True
  then have "realloc_int p (int n + 1) = take n p @ [0]"
    by (simp add: realloc_int_def nat_add_distrib)
  then show ?thesis ..
next
  case False
  with assms have "n < length p" by simp
  then have "realloc_int p (int n + 1) = take n p @ [p ! n]"
    by (simp add: realloc_int_def nat_add_distrib take_Suc_conv_app_nth)
  then show ?thesis ..
qed

lemma extend_cells:
  assumes "1 \<le> l" and "nat l \<le> length p"
  shows "(realloc_int p (l + 1))[nat l := realloc_int p (l + 1) ! nat (l - 1)] =
         take (nat l) p @ [p ! nat (l - 1)]"
proof -
  let ?n = "nat l"
  have l: "int ?n = l" "nat (l - 1) < ?n"
    using assms(1) by simp_all
  from realloc_int_grow [OF assms(2)] obtain c
    where c: "realloc_int p (l + 1) = take ?n p @ [c]"
    unfolding l(1) ..
  have len: "length (take ?n p) = ?n"
    using assms(2) by simp
  have "(take ?n p @ [c]) ! nat (l - 1) = p ! nat (l - 1)"
    using l(2) len by (simp add: nth_append)
  moreover have "(take ?n p @ [c])[?n := v] = take ?n p @ [v]" for v
    using len by (simp add: list_update_append)
  ultimately show ?thesis
    unfolding c by simp
qed

lemma extend_snake_length: "length_snake (extend_snake s) = length_snake s + 1"
  by (simp add: extend_snake_def Let_def)

lemma extend_snake_x:
  assumes "snake_ok s"
  shows "x_snake (extend_snake s) =
         take (nat (length_snake s)) (x_snake s) @ [x_snake s ! nat (length_snake s - 1)]"
proof -
  have "x_snake (extend_snake s) =
        (realloc_int (x_snake s) (length_snake s + 1))
          [nat (length_snake s) := realloc_int (x_snake s) (length_snake s + 1) ! nat (length_snake s - 1)]"
    by (simp add: extend_snake_def Let_def)
  also have "\<dots> = take (nat (length_snake s)) (x_snake s) @ [x_snake s ! nat (length_snake s - 1)]"
    using assms by (intro extend_cells) (simp_all add: snake_ok_def)
  finally show ?thesis .
qed

lemma extend_snake_y:
  assumes "snake_ok s"
  shows "y_snake (extend_snake s) =
         take (nat (length_snake s)) (y_snake s) @ [y_snake s ! nat (length_snake s - 1)]"
proof -
  have "y_snake (extend_snake s) =
        (realloc_int (y_snake s) (length_snake s + 1))
          [nat (length_snake s) := realloc_int (y_snake s) (length_snake s + 1) ! nat (length_snake s - 1)]"
    by (simp add: extend_snake_def Let_def)
  also have "\<dots> = take (nat (length_snake s)) (y_snake s) @ [y_snake s ! nat (length_snake s - 1)]"
    using assms by (intro extend_cells) (simp_all add: snake_ok_def)
  finally show ?thesis .
qed

lemma extend_snake_ok: "snake_ok s \<Longrightarrow> snake_ok (extend_snake s)"
  by (auto simp: snake_ok_def extend_snake_x extend_snake_y extend_snake_length)

text \<open>
  C4. Growth, for every snake with a tail: \<open>extend_snake\<close> adds one to \<open>length\<close>, leaves
  arrays of exactly \<open>length + 1\<close> cells, puts the coordinate of the old tail (index
  \<open>length - 1\<close> before the call) into the new last cell (index \<open>length\<close>), and leaves the
  coordinate of every segment that was there unchanged.
\<close>

theorem extend_snake_post:
  assumes "snake_ok s"
  shows "length_snake (extend_snake s) = length_snake s + 1
       \<and> length (x_snake (extend_snake s)) = nat (length_snake s) + 1
       \<and> length (y_snake (extend_snake s)) = nat (length_snake s) + 1
       \<and> x_snake (extend_snake s) ! nat (length_snake s) = x_snake s ! nat (length_snake s - 1)
       \<and> y_snake (extend_snake s) ! nat (length_snake s) = y_snake s ! nat (length_snake s - 1)
       \<and> (\<forall>i. 0 \<le> i \<and> i < length_snake s \<longrightarrow>
              x_snake (extend_snake s) ! nat i = x_snake s ! nat i \<and>
              y_snake (extend_snake s) ! nat i = y_snake s ! nat i)"
proof -
  let ?n = "nat (length_snake s)"
  have n: "?n \<le> length (x_snake s)" "?n \<le> length (y_snake s)"
    using assms by (simp_all add: snake_ok_def)
  have old: "x_snake (extend_snake s) ! nat i = x_snake s ! nat i \<and>
             y_snake (extend_snake s) ! nat i = y_snake s ! nat i"
    if "0 \<le> i \<and> i < length_snake s" for i
  proof -
    from that have "nat i < ?n" by simp
    then show ?thesis
      using n by (simp add: extend_snake_x [OF assms] extend_snake_y [OF assms] nth_append)
  qed
  have new: "x_snake (extend_snake s) ! ?n = x_snake s ! nat (length_snake s - 1)"
            "y_snake (extend_snake s) ! ?n = y_snake s ! nat (length_snake s - 1)"
    using n by (simp_all add: extend_snake_x [OF assms] extend_snake_y [OF assms] nth_append)
  have size: "length (x_snake (extend_snake s)) = ?n + 1"
             "length (y_snake (extend_snake s)) = ?n + 1"
    using n by (simp_all add: extend_snake_x [OF assms] extend_snake_y [OF assms])
  from old new size extend_snake_length [of s] show ?thesis
    by blast
qed

theorem extend_snake_post_witness:
  "snake_ok \<lparr>x_snake = [8, 9, 10], y_snake = [5, 5, 5], length_snake = 3\<rparr>
   \<and> length_snake (extend_snake \<lparr>x_snake = [8, 9, 10], y_snake = [5, 5, 5], length_snake = 3\<rparr>) = 4
   \<and> x_snake (extend_snake \<lparr>x_snake = [8, 9, 10], y_snake = [5, 5, 5], length_snake = 3\<rparr>) ! nat 3 = 10
   \<and> y_snake (extend_snake \<lparr>x_snake = [8, 9, 10], y_snake = [5, 5, 5], length_snake = 3\<rparr>) ! nat 3 = 5
   \<and> x_snake (extend_snake \<lparr>x_snake = [8, 9, 10], y_snake = [5, 5, 5], length_snake = 3\<rparr>) ! nat 1 = 9"
proof -
  let ?s = "\<lparr>x_snake = [8, 9, 10], y_snake = [5, 5, 5], length_snake = 3\<rparr>"
  have ok: "snake_ok ?s"
    by (simp add: snake_ok_def)
  note post = extend_snake_post [OF ok]
  from post have len: "length_snake (extend_snake ?s) = 4"
    by simp
  from post have tail: "x_snake (extend_snake ?s) ! nat 3 = 10 \<and> y_snake (extend_snake ?s) ! nat 3 = 5"
    by simp
  from post have "0 \<le> (1::int) \<and> 1 < length_snake ?s \<longrightarrow>
      x_snake (extend_snake ?s) ! nat 1 = x_snake ?s ! nat 1 \<and>
      y_snake (extend_snake ?s) ! nat 1 = y_snake ?s ! nat 1"
    by blast
  then have old: "x_snake (extend_snake ?s) ! nat 1 = 9"
    by simp
  from ok len tail old show ?thesis
    by blast
qed

subsection \<open>Facts about the wraparound\<close>

lemma wrap_head_length: "length_snake (wrap_head mx my s) = length_snake s"
  by (simp add: wrap_head_def Let_def)

lemma wrap_head_size_x: "length (x_snake (wrap_head mx my s)) = length (x_snake s)"
  by (simp add: wrap_head_def Let_def)

lemma wrap_head_size_y: "length (y_snake (wrap_head mx my s)) = length (y_snake s)"
  by (simp add: wrap_head_def Let_def)

lemma wrap_head_ok: "snake_ok s \<Longrightarrow> snake_ok (wrap_head mx my s)"
  by (simp add: snake_ok_def wrap_head_length wrap_head_size_x wrap_head_size_y)

lemma wrap_head_x0:
  "x_snake s \<noteq> [] \<Longrightarrow>
   x_snake (wrap_head mx my s) ! 0 =
     (if x_snake s ! 0 \<le> 0 then mx - 2
      else if mx - 1 \<le> x_snake s ! 0 then 1
      else x_snake s ! 0)"
  by (simp add: wrap_head_def Let_def)

lemma wrap_head_y0:
  "y_snake s \<noteq> [] \<Longrightarrow>
   y_snake (wrap_head mx my s) ! 0 =
     (if y_snake s ! 0 \<le> 0 then my - 2
      else if my - 1 \<le> y_snake s ! 0 then 1
      else y_snake s ! 0)"
  by (simp add: wrap_head_def Let_def)

lemma wrap_head_rest:
  "1 \<le> i \<Longrightarrow>
   x_snake (wrap_head mx my s) ! i = x_snake s ! i \<and>
   y_snake (wrap_head mx my s) ! i = y_snake s ! i"
  by (simp add: wrap_head_def Let_def)

lemma wrap_head_inside:
  "0 < x_snake s ! 0 \<Longrightarrow> x_snake s ! 0 < mx - 1 \<Longrightarrow>
   0 < y_snake s ! 0 \<Longrightarrow> y_snake s ! 0 < my - 1 \<Longrightarrow> wrap_head mx my s = s"
  by (simp add: wrap_head_def Let_def)

text \<open>
  C2. The wraparound touches the head only. A head with \<open>x \<le> 0\<close> gets \<open>x = max_x - 2\<close>,
  otherwise one with \<open>x \<ge> max_x - 1\<close> gets \<open>x = 1\<close>; independently a head with \<open>y \<le> 0\<close>
  gets \<open>y = max_y - 2\<close>, otherwise one with \<open>y \<ge> max_y - 1\<close> gets \<open>y = 1\<close>. A head strictly
  inside (\<open>0 < x < max_x - 1\<close> and \<open>0 < y < max_y - 1\<close>) stays where it is, and no other
  segment changes. On a screen of 20 by 10: \<open>x = 0\<close> becomes 18, \<open>x = 19\<close> becomes 1,
  \<open>y = 0\<close> becomes 8 and \<open>y = 9\<close> becomes 1.
\<close>

theorem wrap_head_post:
  assumes "snake_ok s"
  shows "x_snake (wrap_head mx my s) ! 0 =
           (if x_snake s ! 0 \<le> 0 then mx - 2
            else if x_snake s ! 0 \<ge> mx - 1 then 1
            else x_snake s ! 0)
       \<and> y_snake (wrap_head mx my s) ! 0 =
           (if y_snake s ! 0 \<le> 0 then my - 2
            else if y_snake s ! 0 \<ge> my - 1 then 1
            else y_snake s ! 0)
       \<and> (0 < x_snake s ! 0 \<and> x_snake s ! 0 < mx - 1 \<and>
          0 < y_snake s ! 0 \<and> y_snake s ! 0 < my - 1 \<longrightarrow>
            wrap_head mx my s = s)
       \<and> (\<forall>i. 1 \<le> i \<longrightarrow>
              x_snake (wrap_head mx my s) ! nat i = x_snake s ! nat i \<and>
              y_snake (wrap_head mx my s) ! nat i = y_snake s ! nat i)
       \<and> length_snake (wrap_head mx my s) = length_snake s
       \<and> (x_snake s ! 0 = 0 \<longrightarrow> x_snake (wrap_head 20 10 s) ! 0 = 18)
       \<and> (x_snake s ! 0 = 19 \<longrightarrow> x_snake (wrap_head 20 10 s) ! 0 = 1)
       \<and> (y_snake s ! 0 = 0 \<longrightarrow> y_snake (wrap_head 20 10 s) ! 0 = 8)
       \<and> (y_snake s ! 0 = 9 \<longrightarrow> y_snake (wrap_head 20 10 s) ! 0 = 1)"
proof -
  have ne: "x_snake s \<noteq> []" "y_snake s \<noteq> []"
    using snake_ok_head [OF assms] by simp_all
  note x0 = wrap_head_x0 [OF ne(1)] and y0 = wrap_head_y0 [OF ne(2)]
  have rest: "\<forall>i. 1 \<le> i \<longrightarrow>
              x_snake (wrap_head mx my s) ! nat i = x_snake s ! nat i \<and>
              y_snake (wrap_head mx my s) ! nat i = y_snake s ! nat i"
    by (simp add: wrap_head_rest)
  have inside: "0 < x_snake s ! 0 \<and> x_snake s ! 0 < mx - 1 \<and>
          0 < y_snake s ! 0 \<and> y_snake s ! 0 < my - 1 \<longrightarrow>
            wrap_head mx my s = s"
    by (simp add: wrap_head_inside)
  have ex: "x_snake s ! 0 = 0 \<longrightarrow> x_snake (wrap_head 20 10 s) ! 0 = 18"
      "x_snake s ! 0 = 19 \<longrightarrow> x_snake (wrap_head 20 10 s) ! 0 = 1"
      "y_snake s ! 0 = 0 \<longrightarrow> y_snake (wrap_head 20 10 s) ! 0 = 8"
      "y_snake s ! 0 = 9 \<longrightarrow> y_snake (wrap_head 20 10 s) ! 0 = 1"
    by (simp_all add: x0 y0)
  from x0 [where mx = mx and my = my] y0 [where mx = mx and my = my] inside rest wrap_head_length [of mx my s] ex
  show ?thesis
    by blast
qed

theorem wrap_head_post_witness:
  "snake_ok \<lparr>x_snake = [0, 1, 2], y_snake = [9, 9, 9], length_snake = 3\<rparr>
   \<and> x_snake (wrap_head 20 10 \<lparr>x_snake = [0, 1, 2], y_snake = [9, 9, 9], length_snake = 3\<rparr>) ! 0 = 18
   \<and> y_snake (wrap_head 20 10 \<lparr>x_snake = [0, 1, 2], y_snake = [9, 9, 9], length_snake = 3\<rparr>) ! 0 = 1
   \<and> x_snake (wrap_head 20 10 \<lparr>x_snake = [0, 1, 2], y_snake = [9, 9, 9], length_snake = 3\<rparr>) ! nat 1 = 1
   \<and> y_snake (wrap_head 20 10 \<lparr>x_snake = [0, 1, 2], y_snake = [9, 9, 9], length_snake = 3\<rparr>) ! nat 1 = 9
   \<and> snake_ok \<lparr>x_snake = [19, 18, 17], y_snake = [0, 0, 0], length_snake = 3\<rparr>
   \<and> x_snake (wrap_head 20 10 \<lparr>x_snake = [19, 18, 17], y_snake = [0, 0, 0], length_snake = 3\<rparr>) ! 0 = 1
   \<and> y_snake (wrap_head 20 10 \<lparr>x_snake = [19, 18, 17], y_snake = [0, 0, 0], length_snake = 3\<rparr>) ! 0 = 8
   \<and> snake_ok \<lparr>x_snake = [5, 6, 7], y_snake = [4, 4, 4], length_snake = 3\<rparr>
   \<and> wrap_head 20 10 \<lparr>x_snake = [5, 6, 7], y_snake = [4, 4, 4], length_snake = 3\<rparr> = \<lparr>x_snake = [5, 6, 7], y_snake = [4, 4, 4], length_snake = 3\<rparr>"
proof -
  let ?a = "\<lparr>x_snake = [0, 1, 2], y_snake = [9, 9, 9], length_snake = 3\<rparr>"
  let ?b = "\<lparr>x_snake = [19, 18, 17], y_snake = [0, 0, 0], length_snake = 3\<rparr>"
  let ?c = "\<lparr>x_snake = [5, 6, 7], y_snake = [4, 4, 4], length_snake = 3\<rparr>"
  have ok: "snake_ok ?a" "snake_ok ?b" "snake_ok ?c"
    by (simp_all add: snake_ok_def)
  note a = wrap_head_post [OF ok(1), of 20 10]
  from a have a_head: "x_snake (wrap_head 20 10 ?a) ! 0 = 18 \<and> y_snake (wrap_head 20 10 ?a) ! 0 = 1"
    by simp
  from a have "(1::int) \<le> 1 \<longrightarrow>
      x_snake (wrap_head 20 10 ?a) ! nat 1 = x_snake ?a ! nat 1 \<and>
      y_snake (wrap_head 20 10 ?a) ! nat 1 = y_snake ?a ! nat 1"
    by blast
  then have a_rest: "x_snake (wrap_head 20 10 ?a) ! nat 1 = 1 \<and> y_snake (wrap_head 20 10 ?a) ! nat 1 = 9"
    by simp
  note b = wrap_head_post [OF ok(2), of 20 10]
  have "x_snake ?b ! 0 = 19" and "y_snake ?b ! 0 = 0"
    by simp_all
  with b have b_head: "x_snake (wrap_head 20 10 ?b) ! 0 = 1 \<and> y_snake (wrap_head 20 10 ?b) ! 0 = 8"
    by blast
  note c = wrap_head_post [OF ok(3), of 20 10]
  have "0 < x_snake ?c ! 0 \<and> x_snake ?c ! 0 < 20 - 1 \<and> 0 < y_snake ?c ! 0 \<and> y_snake ?c ! 0 < 10 - 1"
    by simp
  with c have c_same: "wrap_head 20 10 ?c = ?c"
    by blast
  from ok a_head a_rest b_head c_same show ?thesis
    by blast
qed

text \<open>
  C7. On a screen with \<open>max_x \<ge> 4\<close> and \<open>max_y \<ge> 4\<close> the head lies strictly inside after
  the wraparound: \<open>1 \<le> x \<le> max_x - 2\<close> and \<open>1 \<le> y \<le> max_y - 2\<close>, so it is never on a
  border coordinate (0 or \<open>max - 1\<close>). This holds for every well-formed snake, the one
  \<open>update_snake\<close> returns among them.
\<close>

theorem wrap_head_interior:
  assumes "snake_ok s" and "4 \<le> mx" and "4 \<le> my"
  shows "1 \<le> x_snake (wrap_head mx my s) ! 0 \<and> x_snake (wrap_head mx my s) ! 0 \<le> mx - 2
       \<and> 1 \<le> y_snake (wrap_head mx my s) ! 0 \<and> y_snake (wrap_head mx my s) ! 0 \<le> my - 2
       \<and> x_snake (wrap_head mx my s) ! 0 \<noteq> 0 \<and> x_snake (wrap_head mx my s) ! 0 \<noteq> mx - 1
       \<and> y_snake (wrap_head mx my s) ! 0 \<noteq> 0 \<and> y_snake (wrap_head mx my s) ! 0 \<noteq> my - 1"
proof -
  have ne: "x_snake s \<noteq> []" "y_snake s \<noteq> []"
    using snake_ok_head [OF assms(1)] by simp_all
  have x: "1 \<le> x_snake (wrap_head mx my s) ! 0 \<and> x_snake (wrap_head mx my s) ! 0 \<le> mx - 2"
    using assms(2) unfolding wrap_head_x0 [OF ne(1)] by auto
  have y: "1 \<le> y_snake (wrap_head mx my s) ! 0 \<and> y_snake (wrap_head mx my s) ! 0 \<le> my - 2"
    using assms(3) unfolding wrap_head_y0 [OF ne(2)] by auto
  from x y show ?thesis
    by linarith
qed

theorem wrap_head_interior_witness:
  "snake_ok \<lparr>x_snake = [0, 1, 2], y_snake = [9, 9, 9], length_snake = 3\<rparr>
   \<and> (4::int) \<le> 20 \<and> (4::int) \<le> 10
   \<and> 1 \<le> x_snake (wrap_head 20 10 \<lparr>x_snake = [0, 1, 2], y_snake = [9, 9, 9], length_snake = 3\<rparr>) ! 0
   \<and> x_snake (wrap_head 20 10 \<lparr>x_snake = [0, 1, 2], y_snake = [9, 9, 9], length_snake = 3\<rparr>) ! 0 \<le> 20 - 2
   \<and> 1 \<le> y_snake (wrap_head 20 10 \<lparr>x_snake = [0, 1, 2], y_snake = [9, 9, 9], length_snake = 3\<rparr>) ! 0
   \<and> y_snake (wrap_head 20 10 \<lparr>x_snake = [0, 1, 2], y_snake = [9, 9, 9], length_snake = 3\<rparr>) ! 0 \<le> 10 - 2"
proof -
  let ?s = "\<lparr>x_snake = [0, 1, 2], y_snake = [9, 9, 9], length_snake = 3\<rparr>"
  have ok: "snake_ok ?s"
    by (simp add: snake_ok_def)
  have b: "(4::int) \<le> 20" "(4::int) \<le> 10"
    by simp_all
  from wrap_head_interior [OF ok b] ok b show ?thesis
    by blast
qed

subsection \<open>Facts about the game loop\<close>

lemma check_collision_snd: "snd (check_collision s) = s"
  by (simp add: check_collision_def collision_loop_snd)

lemma tick_quit: "in_ch inp = 113 \<Longrightarrow> tick k inp g = Break g"
  by (simp add: tick_def)

lemma tick_hit:
  "in_ch inp \<noteq> 113 \<Longrightarrow>
   fst (check_collision (wrap_head (max_x g) (max_y g)
          (update_snake (snake g) (current_direction g)))) \<Longrightarrow>
   tick k inp g =
     Break (g\<lparr>snake := wrap_head (max_x g) (max_y g)
                          (update_snake (snake g) (current_direction g)),
              game_over := True\<rparr>)"
  by (simp add: tick_def Let_def case_prod_beta check_collision_snd)

lemma tick_length:
  "length_snake (snake (state_of (tick k inp g))) =
     (if in_ch inp \<noteq> 113
         \<and> \<not> fst (check_collision (wrap_head (max_x g) (max_y g)
                    (update_snake (snake g) (current_direction g))))
         \<and> EXTEND_INTERVAL \<le> in_time inp - last_extend_time g
      then length_snake (snake g) + 1
      else length_snake (snake g))"
  by (simp add: tick_def Let_def case_prod_beta check_collision_snd
      wrap_head_length update_snake_length extend_snake_length)

lemma tick_length_step:
  "length_snake (snake (state_of (tick k inp g))) = length_snake (snake g)
   \<or> length_snake (snake (state_of (tick k inp g))) = length_snake (snake g) + 1"
  unfolding tick_length by simp

lemma game_loop_snoc:
  "game_loop k g (inps @ [inp]) = game_loop k g inps
   \<or> game_loop k g (inps @ [inp]) = state_of (tick k inp (game_loop k g inps))"
proof (induction inps arbitrary: g)
  case Nil
  show ?case
    by (cases "tick k inp g") simp_all
next
  case (Cons a inps)
  show ?case
  proof (cases "tick k a g")
    case (Break g')
    then show ?thesis by simp
  next
    case (Next g')
    with Cons.IH [of g'] show ?thesis by auto
  qed
qed

lemma game_loop_mono:
  "length_snake (snake g) \<le> length_snake (snake (game_loop k g inps))"
proof (induction inps arbitrary: g)
  case Nil
  show ?case by simp
next
  case (Cons inp inps)
  have step: "length_snake (snake g) \<le> length_snake (snake (state_of (tick k inp g)))"
    using tick_length_step [of k inp g] by linarith
  show ?case
  proof (cases "tick k inp g")
    case (Break g')
    with step show ?thesis by simp
  next
    case (Next g')
    with step Cons.IH [of g'] show ?thesis by simp
  qed
qed

lemma init_loop_length: "length_snake (init_loop s mx my i) = length_snake s"
  by (induction s mx my i rule: init_loop.induct) (subst init_loop.simps, simp)

lemma init_game_length: "length_snake (snake (init_game mx my t0)) = 5"
  by (simp add: init_game_def init_snake_def init_loop_length INITIAL_SNAKE_LENGTH_def)

text \<open>
  C9. Frame properties. \<open>update_snake\<close> leaves \<open>length\<close> as it was, for every snake and
  direction. \<open>check_collision\<close> only observes: the snake it leaves behind is the snake it
  was given, \<open>length\<close> and every coordinate included. \<open>extend_snake\<close> is the only one to
  change \<open>length\<close>: in an iteration of the game loop the length changes exactly when
  \<open>extend_snake\<close> is called (no quit key, no collision, interval elapsed), the wraparound
  leaving it alone too.
\<close>

theorem frame_properties:
  "length_snake (update_snake s d) = length_snake s
   \<and> snd (check_collision s) = s
   \<and> length_snake (snd (check_collision s)) = length_snake s
   \<and> x_snake (snd (check_collision s)) = x_snake s
   \<and> y_snake (snd (check_collision s)) = y_snake s
   \<and> length_snake (extend_snake s) = length_snake s + 1
   \<and> length_snake (wrap_head mx my s) = length_snake s
   \<and> length_snake (snake (state_of (tick k inp g))) =
       (if in_ch inp \<noteq> 113
           \<and> \<not> fst (check_collision (wrap_head (max_x g) (max_y g)
                      (update_snake (snake g) (current_direction g))))
           \<and> EXTEND_INTERVAL \<le> in_time inp - last_extend_time g
        then length_snake (extend_snake (snake g))
        else length_snake (snake g))"
  by (simp only: update_snake_length check_collision_snd extend_snake_length
      wrap_head_length tick_length simp_thms)

text \<open>
  C5. The length invariant. The snake starts with \<open>INITIAL_SNAKE_LENGTH = 5\<close> segments;
  in every state the game loop reaches from the initial state, whatever the inputs,
  \<open>length \<ge> 1\<close>; one iteration of the loop leaves the length equal or adds exactly 1 (for
  the loop body on any state, and between consecutive states of a run); and the length
  at the end of a run is never below the length at its start.
\<close>

theorem length_invariant:
  "INITIAL_SNAKE_LENGTH = 5
   \<and> length_snake (snake (init_game mx my t0)) = INITIAL_SNAKE_LENGTH
   \<and> 1 \<le> length_snake (snake (game_loop k (init_game mx my t0) inps))
   \<and> (length_snake (snake (state_of (tick k inp g))) = length_snake (snake g)
      \<or> length_snake (snake (state_of (tick k inp g))) = length_snake (snake g) + 1)
   \<and> (length_snake (snake (game_loop k g (inps @ [inp]))) =
        length_snake (snake (game_loop k g inps))
      \<or> length_snake (snake (game_loop k g (inps @ [inp]))) =
        length_snake (snake (game_loop k g inps)) + 1)
   \<and> length_snake (snake g) \<le> length_snake (snake (game_loop k g inps))"
proof -
  have init: "length_snake (snake (init_game mx my t0)) = INITIAL_SNAKE_LENGTH"
    by (simp add: init_game_length INITIAL_SNAKE_LENGTH_def)
  have reach: "1 \<le> length_snake (snake (game_loop k (init_game mx my t0) inps))"
    using game_loop_mono [of "init_game mx my t0" k inps] by (simp add: init_game_length)
  have run: "length_snake (snake (game_loop k g (inps @ [inp]))) =
        length_snake (snake (game_loop k g inps))
      \<or> length_snake (snake (game_loop k g (inps @ [inp]))) =
        length_snake (snake (game_loop k g inps)) + 1"
    using game_loop_snoc [of k g inps inp] tick_length_step [of k inp "game_loop k g inps"]
    by auto
  from init reach run tick_length_step [of k inp g] game_loop_mono [of g k inps]
  show ?thesis
    by (simp add: INITIAL_SNAKE_LENGTH_def)
qed

subsection \<open>Facts about the initial snake\<close>

lemma init_snake_eq:
  "init_snake mx my =
     \<lparr>x_snake = [mx sdiv 2, mx sdiv 2 + 1, mx sdiv 2 + 2, mx sdiv 2 + 3, mx sdiv 2 + 4],
      y_snake = [my sdiv 2, my sdiv 2, my sdiv 2, my sdiv 2, my sdiv 2],
      length_snake = 5\<rparr>"
  by (simp add: init_snake_def INITIAL_SNAKE_LENGTH_def malloc_int_def init_loop.simps
      eval_nat_numeral)

text \<open>
  C8, as the code has it. At game start the snake has exactly \<open>INITIAL_SNAKE_LENGTH = 5\<close>
  segments on the middle row: every segment has \<open>y = max_y / 2\<close>, and the \<open>x\<close> coordinates
  are the contiguous run \<open>max_x / 2, max_x / 2 + 1, \<dots>, max_x / 2 + 4\<close>. The head, at index
  0, is on the middle column and the body extends to its right: the run starts at the
  centre of the screen width.
\<close>

theorem init_snake_layout:
  "length_snake (init_snake mx my) = INITIAL_SNAKE_LENGTH
   \<and> INITIAL_SNAKE_LENGTH = 5
   \<and> x_snake (init_snake mx my) =
       [mx sdiv 2, mx sdiv 2 + 1, mx sdiv 2 + 2, mx sdiv 2 + 3, mx sdiv 2 + 4]
   \<and> y_snake (init_snake mx my) = [my sdiv 2, my sdiv 2, my sdiv 2, my sdiv 2, my sdiv 2]
   \<and> x_snake (init_snake mx my) ! 0 = mx sdiv 2
   \<and> snake (init_game mx my t0) = init_snake mx my"
  by (simp add: init_snake_eq INITIAL_SNAKE_LENGTH_def init_game_def)

text \<open>
  C8, as it is stated, asks for a body that is centred in the screen width. On a screen
  of 80 columns the snake occupies columns 40 to 44: 40 free columns on its left and 35
  on its right.
\<close>

theorem init_snake_not_centred:
  "x_snake (init_snake 80 24) = [40, 41, 42, 43, 44]
   \<and> free_left (init_snake 80 24) = 40
   \<and> free_right 80 (init_snake 80 24) = 35
   \<and> \<not> centred_in_width 80 (init_snake 80 24)"
  by (simp add: init_snake_eq centred_in_width_def free_left_def free_right_def segments_def
      signed_divide_int_def)


subsection \<open>Facts about \<open>get_new_direction\<close> and reversal\<close>

lemma get_new_direction_keys:
  assumes "distinct [KEY_UP k, KEY_DOWN k, KEY_LEFT k, KEY_RIGHT k]"
  shows "get_new_direction k (KEY_UP k) cur = DIR_UP"
    and "get_new_direction k (KEY_DOWN k) cur = DIR_DOWN"
    and "get_new_direction k (KEY_LEFT k) cur = DIR_LEFT"
    and "get_new_direction k (KEY_RIGHT k) cur = DIR_RIGHT"
  using assms by (simp_all add: get_new_direction_def)

lemma get_new_direction_other:
  "ch \<noteq> KEY_UP k \<Longrightarrow> ch \<noteq> KEY_DOWN k \<Longrightarrow> ch \<noteq> KEY_LEFT k \<Longrightarrow> ch \<noteq> KEY_RIGHT k \<Longrightarrow>
   get_new_direction k ch cur = cur"
  by (simp add: get_new_direction_def)

lemma straight_line_second:
  assumes "straight_line s d" and "3 \<le> length_snake s"
  shows "x_snake s ! 1 = x_snake s ! 0 - step_x d" and "y_snake s ! 1 = y_snake s ! 0 - step_y d"
proof -
  have "1 \<in> {0 ..< nat (length_snake s)}"
    using assms(2) by simp
  with assms(1) have "x_snake s ! 1 = x_snake s ! 0 - int 1 * step_x d \<and>
                     y_snake s ! 1 = y_snake s ! 0 - int 1 * step_y d"
    unfolding straight_line_def by blast
  then show "x_snake s ! 1 = x_snake s ! 0 - step_x d" and "y_snake s ! 1 = y_snake s ! 0 - step_y d"
    by simp_all
qed

lemma reversed_head:
  assumes "snake_ok s"
  shows "x_snake (update_snake s (opposite d)) ! 0 = x_snake s ! 0 - step_x d"
    and "y_snake (update_snake s (opposite d)) ! 0 = y_snake s ! 0 - step_y d"
  by (cases d; simp add: update_snake_x_head [OF assms] update_snake_y_head [OF assms])+

lemma reversal_hits:
  assumes ok: "snake_ok s" and len: "3 \<le> length_snake s" and line: "straight_line s d"
  shows "fst (check_collision (update_snake s (opposite d)))"
proof -
  let ?s' = "update_snake s (opposite d)"
  have third: "x_snake ?s' ! 2 = x_snake s ! 1" "y_snake ?s' ! 2 = y_snake s ! 1"
    using update_snake_x_body [OF ok, of 2 "opposite d"]
      update_snake_y_body [OF ok, of 2 "opposite d"] len
    by simp_all
  have "1 \<le> (2::int) \<and> 2 < length_snake ?s' \<and>
        x_snake ?s' ! 0 = x_snake ?s' ! nat 2 \<and> y_snake ?s' ! 0 = y_snake ?s' ! nat 2"
    using len third reversed_head [OF ok, of d] straight_line_second [OF line len]
    by (simp add: update_snake_length)
  then show ?thesis
    unfolding check_collision_def collision_loop_fst by blast
qed

text \<open>
  C6. There is no guard against reversal. With the four arrow keys distinct,
  \<open>get_new_direction\<close> returns the direction of the arrow key pressed whatever the current
  direction is, its opposite included, and the current direction for any other value of
  \<open>getch()\<close>. For a snake of length at least 3 lying in a straight line behind its head
  (travelling in direction \<open>d\<close>), \<open>update_snake\<close> with the opposite direction puts the head
  on a body segment: when the new head is strictly inside the screen the wraparound
  changes nothing, \<open>check_collision\<close> returns true, and the iteration of the game loop
  ends the game.
\<close>

theorem no_reversal_guard:
  assumes "distinct [KEY_UP k, KEY_DOWN k, KEY_LEFT k, KEY_RIGHT k]"
  shows "get_new_direction k (KEY_UP k) cur = DIR_UP
       \<and> get_new_direction k (KEY_DOWN k) cur = DIR_DOWN
       \<and> get_new_direction k (KEY_LEFT k) cur = DIR_LEFT
       \<and> get_new_direction k (KEY_RIGHT k) cur = DIR_RIGHT
       \<and> (ch \<noteq> KEY_UP k \<and> ch \<noteq> KEY_DOWN k \<and> ch \<noteq> KEY_LEFT k \<and> ch \<noteq> KEY_RIGHT k \<longrightarrow>
            get_new_direction k ch cur = cur)
       \<and> (snake_ok s \<and> 3 \<le> length_snake s \<and> straight_line s d \<and>
          0 < x_snake (update_snake s (opposite d)) ! 0 \<and>
          x_snake (update_snake s (opposite d)) ! 0 < mx - 1 \<and>
          0 < y_snake (update_snake s (opposite d)) ! 0 \<and>
          y_snake (update_snake s (opposite d)) ! 0 < my - 1 \<longrightarrow>
            wrap_head mx my (update_snake s (opposite d)) = update_snake s (opposite d) \<and>
            fst (check_collision (wrap_head mx my (update_snake s (opposite d)))) \<and>
            (\<forall>g inp. snake g = s \<and> current_direction g = opposite d \<and>
                     max_x g = mx \<and> max_y g = my \<and> in_ch inp \<noteq> 113 \<longrightarrow>
               tick k inp g = Break (g\<lparr>snake := update_snake s (opposite d),
                                        game_over := True\<rparr>)))"
proof -
  note keys = get_new_direction_keys [OF assms]
  have other: "ch \<noteq> KEY_UP k \<and> ch \<noteq> KEY_DOWN k \<and> ch \<noteq> KEY_LEFT k \<and> ch \<noteq> KEY_RIGHT k \<longrightarrow>
            get_new_direction k ch cur = cur"
    by (simp add: get_new_direction_other)
  have rev: "wrap_head mx my (update_snake s (opposite d)) = update_snake s (opposite d) \<and>
            fst (check_collision (wrap_head mx my (update_snake s (opposite d)))) \<and>
            (\<forall>g inp. snake g = s \<and> current_direction g = opposite d \<and>
                     max_x g = mx \<and> max_y g = my \<and> in_ch inp \<noteq> 113 \<longrightarrow>
               tick k inp g = Break (g\<lparr>snake := update_snake s (opposite d),
                                        game_over := True\<rparr>))"
    if ok: "snake_ok s" and len: "3 \<le> length_snake s" and line: "straight_line s d"
      and inside: "0 < x_snake (update_snake s (opposite d)) ! 0"
        "x_snake (update_snake s (opposite d)) ! 0 < mx - 1"
        "0 < y_snake (update_snake s (opposite d)) ! 0"
        "y_snake (update_snake s (opposite d)) ! 0 < my - 1"
  proof -
    have same: "wrap_head mx my (update_snake s (opposite d)) = update_snake s (opposite d)"
      by (rule wrap_head_inside [OF inside])
    have hit: "fst (check_collision (wrap_head mx my (update_snake s (opposite d))))"
      unfolding same by (rule reversal_hits [OF ok len line])
    have "tick k inp g = Break (g\<lparr>snake := update_snake s (opposite d), game_over := True\<rparr>)"
      if g: "snake g = s \<and> current_direction g = opposite d \<and>
             max_x g = mx \<and> max_y g = my \<and> in_ch inp \<noteq> 113" for g inp
      using tick_hit [of inp g k] g hit same by simp
    with same hit show ?thesis by blast
  qed
  from keys [of cur] other rev show ?thesis
    by blast
qed

theorem no_reversal_guard_witness:
  "distinct [KEY_UP \<lparr>KEY_UP = 259, KEY_DOWN = 258, KEY_LEFT = 260, KEY_RIGHT = 261\<rparr>, KEY_DOWN \<lparr>KEY_UP = 259, KEY_DOWN = 258, KEY_LEFT = 260, KEY_RIGHT = 261\<rparr>, KEY_LEFT \<lparr>KEY_UP = 259, KEY_DOWN = 258, KEY_LEFT = 260, KEY_RIGHT = 261\<rparr>, KEY_RIGHT \<lparr>KEY_UP = 259, KEY_DOWN = 258, KEY_LEFT = 260, KEY_RIGHT = 261\<rparr>]
   \<and> get_new_direction \<lparr>KEY_UP = 259, KEY_DOWN = 258, KEY_LEFT = 260, KEY_RIGHT = 261\<rparr> (KEY_UP \<lparr>KEY_UP = 259, KEY_DOWN = 258, KEY_LEFT = 260, KEY_RIGHT = 261\<rparr>) DIR_DOWN = DIR_UP
   \<and> get_new_direction \<lparr>KEY_UP = 259, KEY_DOWN = 258, KEY_LEFT = 260, KEY_RIGHT = 261\<rparr> (- 1) DIR_LEFT = DIR_LEFT
   \<and> snake_ok \<lparr>x_snake = [5, 6, 7], y_snake = [5, 5, 5], length_snake = 3\<rparr>
   \<and> 3 \<le> length_snake \<lparr>x_snake = [5, 6, 7], y_snake = [5, 5, 5], length_snake = 3\<rparr>
   \<and> straight_line \<lparr>x_snake = [5, 6, 7], y_snake = [5, 5, 5], length_snake = 3\<rparr> DIR_LEFT
   \<and> fst (check_collision (wrap_head 20 10 (update_snake \<lparr>x_snake = [5, 6, 7], y_snake = [5, 5, 5], length_snake = 3\<rparr> (opposite DIR_LEFT))))
   \<and> game_over (state_of (tick \<lparr>KEY_UP = 259, KEY_DOWN = 258, KEY_LEFT = 260, KEY_RIGHT = 261\<rparr>
        \<lparr>in_ch = - 1, in_time = 1, in_key = - 1\<rparr>
        \<lparr>snake = \<lparr>x_snake = [5, 6, 7], y_snake = [5, 5, 5], length_snake = 3\<rparr>, current_direction = DIR_RIGHT, game_over = False, last_extend_time = 0, max_x = 20, max_y = 10\<rparr>))"
proof -
  let ?K = "\<lparr>KEY_UP = 259, KEY_DOWN = 258, KEY_LEFT = 260, KEY_RIGHT = 261\<rparr>"
  let ?S = "\<lparr>x_snake = [5, 6, 7], y_snake = [5, 5, 5], length_snake = 3\<rparr>"
  let ?S' = "update_snake ?S (opposite DIR_LEFT)"
  let ?G = "\<lparr>snake = \<lparr>x_snake = [5, 6, 7], y_snake = [5, 5, 5], length_snake = 3\<rparr>, current_direction = DIR_RIGHT, game_over = False, last_extend_time = 0, max_x = 20, max_y = 10\<rparr>"
  let ?I = "\<lparr>in_ch = - 1, in_time = 1, in_key = - 1\<rparr>"
  have keys: "distinct [KEY_UP ?K, KEY_DOWN ?K, KEY_LEFT ?K, KEY_RIGHT ?K]"
    by simp
  have other: "- 1 \<noteq> KEY_UP ?K \<and> - 1 \<noteq> KEY_DOWN ?K \<and> - 1 \<noteq> KEY_LEFT ?K \<and> - 1 \<noteq> KEY_RIGHT ?K"
    by simp
  have ok: "snake_ok ?S"
    by (simp add: snake_ok_def)
  have len: "3 \<le> length_snake ?S"
    by simp
  have line: "straight_line ?S DIR_LEFT"
    by (simp add: straight_line_def eval_nat_numeral atLeastLessThanSuc)
  have moved: "?S' = \<lparr>x_snake = [6, 5, 6], y_snake = [5, 5, 5], length_snake = 3\<rparr>"
    by (simp add: update_snake_def shift_loop.simps)
  have inside: "0 < x_snake ?S' ! 0 \<and> x_snake ?S' ! 0 < 20 - 1 \<and>
                0 < y_snake ?S' ! 0 \<and> y_snake ?S' ! 0 < 10 - 1"
    unfolding moved by simp
  have state: "snake ?G = ?S \<and> current_direction ?G = opposite DIR_LEFT \<and>
               max_x ?G = 20 \<and> max_y ?G = 10 \<and> in_ch ?I \<noteq> 113"
    by simp
  note inst = no_reversal_guard [OF keys, where cur = DIR_DOWN and ch = "- 1" and s = ?S
      and d = DIR_LEFT and mx = 20 and my = 10]
  from inst have up: "get_new_direction ?K (KEY_UP ?K) DIR_DOWN = DIR_UP"
    by blast
  note inst' = no_reversal_guard [OF keys, where cur = DIR_LEFT and ch = "- 1" and s = ?S
      and d = DIR_LEFT and mx = 20 and my = 10]
  from inst' other have none: "get_new_direction ?K (- 1) DIR_LEFT = DIR_LEFT"
    by blast
  from inst ok len line inside
  have hit: "fst (check_collision (wrap_head 20 10 ?S'))"
    by blast
  from inst ok len line inside state
  have "tick ?K ?I ?G = Break (?G\<lparr>snake := ?S', game_over := True\<rparr>)"
    by blast
  then have over: "game_over (state_of (tick ?K ?I ?G))"
    by simp
  from keys up none ok len line hit over show ?thesis
    by blast
qed

subsection \<open>Well-formedness in the game loop\<close>

text \<open>
  The initial snake is well-formed and an iteration of the loop keeps it so: every
  snake the game loop reaches satisfies the hypothesis \<open>snake_ok\<close> of the theorems above.
  Growth leaves the head where it is.
\<close>

lemma init_snake_ok: "snake_ok (init_snake mx my)"
  by (simp add: init_snake_eq snake_ok_def)

lemma tick_ok:
  assumes "snake_ok (snake g)"
  shows "snake_ok (snake (state_of (tick k inp g)))"
proof -
  have "snake_ok (wrap_head (max_x g) (max_y g) (update_snake (snake g) (current_direction g)))"
    by (intro wrap_head_ok update_snake_ok assms)
  then show ?thesis
    using assms
    by (simp add: tick_def Let_def case_prod_beta check_collision_snd extend_snake_ok)
qed

lemma game_loop_ok:
  "snake_ok (snake g) \<Longrightarrow> snake_ok (snake (game_loop k g inps))"
proof (induction inps arbitrary: g)
  case Nil
  then show ?case by simp
next
  case (Cons inp inps)
  from tick_ok [OF Cons.prems, of k inp] show ?case
    by (cases "tick k inp g") (simp_all add: Cons)
qed

lemma reachable_ok: "snake_ok (snake (game_loop k (init_game mx my t0) inps))"
  by (rule game_loop_ok) (simp add: init_game_def init_snake_ok)

lemma extend_snake_head:
  assumes "snake_ok s"
  shows "x_snake (extend_snake s) ! 0 = x_snake s ! 0"
    and "y_snake (extend_snake s) ! 0 = y_snake s ! 0"
  using assms snake_ok_head [OF assms]
  by (simp_all add: extend_snake_x extend_snake_y nth_append snake_ok_def)

end
